theory Spec2Isabelle
  imports Complex_Main "HOL-Library.Word" "HOL-Library.Signed_Division"
begin

section \<open>The Triton kernel dispatcher of jaxlib/gpu/triton\_kernels.cc\<close>

text \<open>
  The unit under verification loads compiled GPU kernels, marshals their parameters,
  launches them, and picks the fastest of several candidate configurations once.
  Everything it does to the outside world goes through the CUDA driver, the external
  assembler and zlib. The embedding keeps the code's structure: every function of the
  source is one definition, every \<open>CUDA_RETURN_IF_ERROR\<close>, \<open>JAX_RETURN_IF_ERROR\<close> and
  \<open>JAX_ASSIGN_OR_RETURN\<close> is one \<open>bnd\<close>, every class is a record, and the external
  collaborators are an oracle (\<open>driver\<close>) that decides the result of each call from
  the history of calls made so far.
\<close>

subsection \<open>Machine types\<close>

type_synonym u8 = "8 word"
type_synonym u32 = "32 word"
type_synonym i32 = "32 word"   \<comment> \<open>C++ \<open>int\<close>; read with \<open>sint\<close>, compared with \<open><s\<close>\<close>
type_synonym u64 = "64 word"   \<comment> \<open>\<open>size_t\<close>, \<open>uint64_t\<close>, \<open>uLongf\<close>\<close>
type_synonym ptr = "64 word"   \<comment> \<open>\<open>void*\<close> and \<open>CUdeviceptr\<close>\<close>
type_synonym handle = nat      \<comment> \<open>opaque driver handles: stream, context, module, function, event, device\<close>

subsection \<open>Status values\<close>

text \<open>
  \<open>absl::Status\<close> is either OK or an error. The source builds only
  \<open>absl::InvalidArgumentError\<close> itself; \<open>JAX_AS_STATUS\<close> turns a \<open>CUresult\<close>
  other than \<open>CUDA_SUCCESS\<close> (0) into a status that carries it (\<open>DriverError\<close>), and the
  status of a failed \<open>CompileGpuAsm\<close> is passed on as it is (\<open>CompilationError\<close> with its
  message).
  \<open>Undefined\<close> is not a status: it marks the places where the C++ reads out of range
  (undefined behaviour), so that they are results of the model and not hidden.
\<close>

datatype message =
    Text string
  | NotDivisible nat ptr u64
      \<comment> \<open>\<open>StrFormat("Parameter %zu (%p) is not divisible by %d.", i, ptr, ptr_divisibility)\<close>\<close>

datatype undefined_behaviour =
    ConfigIndexOutOfRange   \<comment> \<open>\<open>configs[0]\<close> on an empty vector\<close>
  | HostBufferOverrun       \<comment> \<open>a copy that reads more bytes than the host vector holds\<close>

datatype error =
    InvalidArgumentError message
  | DriverError nat
  | CompilationError string
  | Undefined undefined_behaviour

subsection \<open>Parameters, kernels and calls\<close>

datatype Parameter =
    Array (bytes_to_zero: u64) (ptr_divisibility: u64)
  | Bool bool
  | Int32 i32
  | UInt32 u32
  | Int64 u64
  | UInt64 u64

record Kernel =
  kernel_name :: string
  block_dim_x :: u32
  shared_mem_bytes :: u32
  ptx :: string
  ttir :: string
  compute_capability :: i32
  module_image :: "nat option"  \<comment> \<open>\<open>ModuleImage*\<close>, \<open>nullptr\<close> until the first launch\<close>

record KernelCall =
  kernel :: Kernel
  grid :: "u32 \<times> u32 \<times> u32"
  parameters :: "Parameter list"

record Config =
  kernel_call :: KernelCall
  description :: string

record AutotunedKernelCall =
  name :: string
  configs :: "Config list"
  input_output_aliases :: "(u64 \<times> u64 \<times> u64) list"
  autotune_once :: bool            \<comment> \<open>has \<open>absl::call_once\<close> run its callable\<close>
  autotune_status :: "error option" \<comment> \<open>\<open>None\<close> is \<open>absl::OkStatus()\<close>\<close>

subsection \<open>The serialized records\<close>

text \<open>
  Modelled from the spec: the generated message classes of triton.pb.h are not among the
  sources. The external interface section lists their fields: a kernel descriptor, a
  kernel call (kernel, 3D grid, ordered parameter list, each parameter one of array,
  boolean, signed or unsigned 32 or 64 bit, or unset), and an autotuned call (name,
  configs of kernel call and description, aliasing triples). Each field has the width of
  the C++ member it is read into.
\<close>

record TritonKernel =
  p_kernel_name :: string
  p_num_warps :: u32
  p_shared_mem_bytes :: u32
  p_ptx :: string
  p_ttir :: string
  p_compute_capability :: i32

datatype TritonKernelCall_Parameter =
    kArray u64 u64
  | kBool bool
  | kI32 i32
  | kU32 u32
  | kI64 u64
  | kU64 u64
  | VALUE_NOT_SET

record TritonKernelCall =
  p_kernel :: TritonKernel
  p_grid_0 :: u32
  p_grid_1 :: u32
  p_grid_2 :: u32
  p_parameters :: "TritonKernelCall_Parameter list"

record TritonAutotunedKernelCall_Config =
  p_kernel_call :: TritonKernelCall
  p_description :: string

record TritonAutotunedKernelCall_InputOutputAlias =
  p_input_buffer_idx :: u64
  p_output_buffer_idx :: u64
  p_buffer_size_bytes :: u64

record TritonAutotunedKernelCall =
  p_name :: string
  p_configs :: "TritonAutotunedKernelCall_Config list"
  p_input_output_aliases :: "TritonAutotunedKernelCall_InputOutputAlias list"

subsection \<open>Constructors and the codec\<close>

definition kNumThreadsPerWarp :: u32 where
  "kNumThreadsPerWarp = 32"

definition Kernel_new :: "string \<Rightarrow> u32 \<Rightarrow> u32 \<Rightarrow> string \<Rightarrow> string \<Rightarrow> i32 \<Rightarrow> Kernel" where
  "Kernel_new kernel_name' num_warps shared_mem_bytes' ptx' ttir' compute_capability' =
     \<lparr>kernel_name = kernel_name',
      block_dim_x = num_warps * kNumThreadsPerWarp,
      shared_mem_bytes = shared_mem_bytes',
      ptx = ptx',
      ttir = ttir',
      compute_capability = compute_capability',
      module_image = None\<rparr>"

definition Kernel_FromProto :: "TritonKernel \<Rightarrow> Kernel" where
  "Kernel_FromProto proto =
     Kernel_new (p_kernel_name proto) (p_num_warps proto) (p_shared_mem_bytes proto)
       (p_ptx proto) (p_ttir proto) (p_compute_capability proto)"

definition Kernel_ToProto :: "Kernel \<Rightarrow> TritonKernel" where
  "Kernel_ToProto k =
     \<lparr>p_kernel_name = kernel_name k,
      p_num_warps = block_dim_x k div kNumThreadsPerWarp,
      p_shared_mem_bytes = shared_mem_bytes k,
      p_ptx = ptx k,
      p_ttir = ttir k,
      p_compute_capability = compute_capability k\<rparr>"

fun Parameter_FromProto :: "TritonKernelCall_Parameter \<Rightarrow> error + Parameter" where
  "Parameter_FromProto (kArray z d) = Inr (Array z d)"
| "Parameter_FromProto (kBool b) = Inr (Bool b)"
| "Parameter_FromProto (kI32 v) = Inr (Int32 v)"
| "Parameter_FromProto (kU32 v) = Inr (UInt32 v)"
| "Parameter_FromProto (kI64 v) = Inr (Int64 v)"
| "Parameter_FromProto (kU64 v) = Inr (UInt64 v)"
| "Parameter_FromProto VALUE_NOT_SET =
     Inl (InvalidArgumentError (Text ''Unknown scalar parameter type.''))"

fun Parameter_ToProto :: "Parameter \<Rightarrow> TritonKernelCall_Parameter" where
  "Parameter_ToProto (Array z d) = kArray z d"
| "Parameter_ToProto (Bool b) = kBool b"
| "Parameter_ToProto (Int32 v) = kI32 v"
| "Parameter_ToProto (UInt32 v) = kU32 v"
| "Parameter_ToProto (Int64 v) = kI64 v"
| "Parameter_ToProto (UInt64 v) = kU64 v"

definition KernelCall_new ::
  "Kernel \<Rightarrow> u32 \<Rightarrow> u32 \<Rightarrow> u32 \<Rightarrow> Parameter list \<Rightarrow> KernelCall" where
  "KernelCall_new kernel' grid_0 grid_1 grid_2 parameters' =
     \<lparr>kernel = kernel', grid = (grid_0, grid_1, grid_2), parameters = parameters'\<rparr>"

text \<open>The loop of \<open>KernelCall::FromProto\<close>: the first parameter that fails to decode
  ends the decoding with its error.\<close>

fun parameters_FromProto ::
  "TritonKernelCall_Parameter list \<Rightarrow> Parameter list \<Rightarrow> error + Parameter list" where
  "parameters_FromProto [] ps = Inr ps"
| "parameters_FromProto (parameter # rest) ps =
     (case Parameter_FromProto parameter of
        Inl e \<Rightarrow> Inl e
      | Inr p \<Rightarrow> parameters_FromProto rest (ps @ [p]))"

definition KernelCall_FromProto :: "TritonKernelCall \<Rightarrow> error + KernelCall" where
  "KernelCall_FromProto proto =
     (case parameters_FromProto (p_parameters proto) [] of
        Inl e \<Rightarrow> Inl e
      | Inr ps \<Rightarrow>
          Inr (KernelCall_new (Kernel_FromProto (p_kernel proto))
                 (p_grid_0 proto) (p_grid_1 proto) (p_grid_2 proto) ps))"

definition KernelCall_ToProto :: "KernelCall \<Rightarrow> TritonKernelCall" where
  "KernelCall_ToProto kc =
     \<lparr>p_kernel = Kernel_ToProto (kernel kc),
      p_grid_0 = fst (grid kc),
      p_grid_1 = fst (snd (grid kc)),
      p_grid_2 = snd (snd (grid kc)),
      p_parameters = map Parameter_ToProto (parameters kc)\<rparr>"

definition AutotunedKernelCall_new ::
  "string \<Rightarrow> Config list \<Rightarrow> (u64 \<times> u64 \<times> u64) list \<Rightarrow> AutotunedKernelCall" where
  "AutotunedKernelCall_new name' configs' input_output_aliases' =
     \<lparr>name = name', configs = configs', input_output_aliases = input_output_aliases',
      autotune_once = False, autotune_status = None\<rparr>"

fun configs_FromProto ::
  "TritonAutotunedKernelCall_Config list \<Rightarrow> Config list \<Rightarrow> error + Config list" where
  "configs_FromProto [] cs = Inr cs"
| "configs_FromProto (config # rest) cs =
     (case KernelCall_FromProto (p_kernel_call config) of
        Inl e \<Rightarrow> Inl e
      | Inr kc \<Rightarrow>
          configs_FromProto rest
            (cs @ [\<lparr>kernel_call = kc, description = p_description config\<rparr>]))"

definition AutotunedKernelCall_FromProto ::
  "TritonAutotunedKernelCall \<Rightarrow> error + AutotunedKernelCall" where
  "AutotunedKernelCall_FromProto proto =
     (case configs_FromProto (p_configs proto) [] of
        Inl e \<Rightarrow> Inl e
      | Inr cs \<Rightarrow>
          Inr (AutotunedKernelCall_new (p_name proto) cs
                 (map (\<lambda>a. (p_input_buffer_idx a, p_output_buffer_idx a, p_buffer_size_bytes a))
                    (p_input_output_aliases proto))))"

definition AutotunedKernelCall_ToProto :: "AutotunedKernelCall \<Rightarrow> TritonAutotunedKernelCall" where
  "AutotunedKernelCall_ToProto a =
     \<lparr>p_name = name a,
      p_configs =
        map (\<lambda>config. \<lparr>p_kernel_call = KernelCall_ToProto (kernel_call config),
                        p_description = description config\<rparr>) (configs a),
      p_input_output_aliases =
        map (\<lambda>(input_idx, output_idx, size).
               \<lparr>p_input_buffer_idx = input_idx, p_output_buffer_idx = output_idx,
                p_buffer_size_bytes = size\<rparr>) (input_output_aliases a)\<rparr>"

text \<open>
  What the members of a \<open>Kernel\<close> can hold. They are private and written by the
  constructor only (apart from the lazily resolved module image), so the block width of
  every \<open>Kernel\<close> is \<open>num_warps * 32\<close> for some 32-bit \<open>num_warps\<close>: a multiple of 32.
\<close>

definition Kernel_constructed :: "Kernel \<Rightarrow> bool" where
  "Kernel_constructed k = (unat (block_dim_x k) mod 32 = 0)"

definition KernelCall_constructed :: "KernelCall \<Rightarrow> bool" where
  "KernelCall_constructed kc = Kernel_constructed (kernel kc)"

definition AutotunedKernelCall_constructed :: "AutotunedKernelCall \<Rightarrow> bool" where
  "AutotunedKernelCall_constructed a =
     list_all (\<lambda>config. KernelCall_constructed (kernel_call config)) (configs a)"

text \<open>The state a decoded object starts in: nothing resolved, nothing tuned.\<close>

definition Kernel_fresh :: "Kernel \<Rightarrow> Kernel" where
  "Kernel_fresh k = k\<lparr>module_image := None\<rparr>"

definition KernelCall_fresh :: "KernelCall \<Rightarrow> KernelCall" where
  "KernelCall_fresh kc = kc\<lparr>kernel := Kernel_fresh (kernel kc)\<rparr>"

definition Config_fresh :: "Config \<Rightarrow> Config" where
  "Config_fresh config = config\<lparr>kernel_call := KernelCall_fresh (kernel_call config)\<rparr>"

definition AutotunedKernelCall_fresh :: "AutotunedKernelCall \<Rightarrow> AutotunedKernelCall" where
  "AutotunedKernelCall_fresh a =
     a\<lparr>configs := map Config_fresh (configs a),
       autotune_once := False, autotune_status := None\<rparr>"

section \<open>The outside world\<close>

subsection \<open>Results that carry state\<close>

text \<open>
  A function of the source that can fail and that changes state is a function from the
  state to a result and the new state. \<open>bnd m f\<close> is \<open>JAX_ASSIGN_OR_RETURN(x, m); f(x)\<close>:
  an error of \<open>m\<close> is returned at once, with the state as \<open>m\<close> left it.
\<close>

type_synonym ('s, 'a) M = "'s \<Rightarrow> (error + 'a) \<times> 's"

definition ret :: "'a \<Rightarrow> ('s, 'a) M" where
  "ret x = (\<lambda>s. (Inr x, s))"

definition fail :: "error \<Rightarrow> ('s, 'a) M" where
  "fail e = (\<lambda>s. (Inl e, s))"

definition bnd :: "('s, 'a) M \<Rightarrow> ('a \<Rightarrow> ('s, 'b) M) \<Rightarrow> ('s, 'b) M" where
  "bnd m f = (\<lambda>s. case m s of (Inl e, s') \<Rightarrow> (Inl e, s') | (Inr x, s') \<Rightarrow> f x s')"

text \<open>\<open>absl::Cleanup\<close>: \<open>c\<close> runs when the scope \<open>m\<close> is left, on every path, and its own
  result is dropped.\<close>

definition cleanup :: "('s, 'b) M \<Rightarrow> ('s, 'a) M \<Rightarrow> ('s, 'a) M" where
  "cleanup c m = (\<lambda>s. case m s of (r, s') \<Rightarrow> (r, snd (c s')))"

fun repeat :: "nat \<Rightarrow> ('s, unit) M \<Rightarrow> ('s, unit) M" where
  "repeat 0 m = ret ()"
| "repeat (Suc n) m = bnd m (\<lambda>_. repeat n m)"

text \<open>A method runs on its object and on the world; \<open>zoom\<close> runs a method of a member.\<close>

definition get_obj :: "('o \<times> 'w, 'o) M" where
  "get_obj = (\<lambda>(obj, w). (Inr obj, (obj, w)))"

definition modify_obj :: "('o \<Rightarrow> 'o) \<Rightarrow> ('o \<times> 'w, unit) M" where
  "modify_obj f = (\<lambda>(obj, w). (Inr (), (f obj, w)))"

definition on_world :: "('w, 'a) M \<Rightarrow> ('o \<times> 'w, 'a) M" where
  "on_world m = (\<lambda>(obj, w). case m w of (r, w') \<Rightarrow> (r, (obj, w')))"

definition zoom :: "('o \<Rightarrow> 'p) \<Rightarrow> ('p \<Rightarrow> 'o \<Rightarrow> 'o) \<Rightarrow> ('p \<times> 'w, 'a) M \<Rightarrow> ('o \<times> 'w, 'a) M" where
  "zoom get put m =
     (\<lambda>(obj, w). case m (get obj, w) of (r, (part, w')) \<Rightarrow> (r, (put part obj, w')))"

subsection \<open>Driver calls\<close>

datatype device_attribute =
    MAX_SHARED_MEMORY_PER_BLOCK_OPTIN
  | MAX_SHARED_MEMORY_PER_MULTIPROCESSOR

datatype function_attribute =
    SHARED_SIZE_BYTES
  | MAX_DYNAMIC_SHARED_SIZE_BYTES

text \<open>What a launch passes for one parameter slot: the buffer pointer bound to an array
  parameter, or the stored scalar.\<close>

datatype kernel_arg = BufferArg ptr | ScalarArg Parameter

text \<open>
  Every call the source makes to the driver or to the assembler, with the arguments the
  source passes. A launch is \<open>cuLaunchKernel f gridX gridY gridZ blockX sharedMem stream
  args\<close> (block height and depth are 1); a host-to-device copy carries the bytes read
  from host memory.
\<close>

datatype call =
    CompileGpuAsm i32 i32 string
  | cuEventCreate
  | cuEventRecord handle handle
  | cuEventSynchronize handle
  | cuEventElapsedTime handle handle
  | cuEventDestroy handle
  | cuStreamGetCtx handle
  | cuCtxPushCurrent handle
  | cuCtxPopCurrent
  | cuModuleLoadData "u8 list"
  | cuModuleGetFunction handle string
  | cuCtxGetDevice
  | cuDeviceGetAttribute device_attribute handle
  | cuFuncSetCacheConfig handle
  | cuFuncGetAttribute function_attribute handle
  | cuFuncSetAttribute handle function_attribute i32
  | cuLaunchKernel handle u32 u32 u32 u32 u32 handle "kernel_arg list"
  | cuMemsetD8Async ptr u8 u64 handle
  | cuMemcpyDtoHAsync ptr u64 handle
  | cuMemcpyHtoDAsync ptr "u8 list" u64 handle
  | cuStreamSynchronize handle

text \<open>
  The collaborators are an oracle. Each answer may depend on the calls made before
  (\<open>call list\<close>, oldest first) and on the call: \<open>cu_result\<close> is the \<open>CUresult\<close> (0 is
  \<open>CUDA_SUCCESS\<close>), \<open>out_handle\<close>, \<open>out_int\<close> and \<open>out_ms\<close> are what a successful call
  writes through its out-parameter, \<open>kernel_writes\<close> is what a launched kernel does to
  device memory, \<open>assemble\<close> is the answer of \<open>stream_executor::CompileGpuAsm\<close> (the
  message of its failure status, or the compiled bytes).
  The elapsed time is the \<open>float\<close> of \<open>cuEventElapsedTime\<close> taken as a real number:
  rounding and NaN are outside the model.
\<close>

record driver =
  cu_result :: "call list \<Rightarrow> call \<Rightarrow> nat"
  out_handle :: "call list \<Rightarrow> call \<Rightarrow> handle"
  out_int :: "call list \<Rightarrow> call \<Rightarrow> i32"
  out_ms :: "call list \<Rightarrow> call \<Rightarrow> real"
  kernel_writes :: "call list \<Rightarrow> call \<Rightarrow> (ptr \<Rightarrow> u8) \<Rightarrow> (ptr \<Rightarrow> u8)"
  assemble :: "call list \<Rightarrow> i32 \<Rightarrow> i32 \<Rightarrow> string \<Rightarrow> string + u8 list"

record ModuleImage =
  image_kernel_name :: string           \<comment> \<open>\<open>ModuleImage::kernel_name_\<close>\<close>
  image_bytes :: "u8 list"              \<comment> \<open>\<open>ModuleImage::module_image_\<close>\<close>
  image_shared_mem_bytes :: u32         \<comment> \<open>\<open>ModuleImage::shared_mem_bytes_\<close>\<close>
  image_modules :: "handle list"
  image_functions :: "handle \<Rightarrow> handle option"

type_synonym image_key = "string \<times> u32 \<times> string \<times> i32"

text \<open>
  The world: the calls made so far, device memory, and the process-wide state of
  \<open>GetModuleImage\<close> (the static map \<open>module_images\<close> from key to the \<open>ModuleImage\<close> it
  owns). A \<open>ModuleImage*\<close> is an index into \<open>image_heap\<close>; \<open>std::make_unique\<close> takes the
  next one. Stream operations take effect in program order (one stream), and a call that
  fails has no effect.
\<close>

record world =
  trace :: "call list"
  mem :: "ptr \<Rightarrow> u8"
  module_images :: "image_key \<Rightarrow> nat option"
  image_heap :: "nat \<Rightarrow> ModuleImage"
  image_count :: nat

fun write_bytes :: "ptr \<Rightarrow> u8 list \<Rightarrow> (ptr \<Rightarrow> u8) \<Rightarrow> (ptr \<Rightarrow> u8)" where
  "write_bytes p [] m = m"
| "write_bytes p (b # bs) m = write_bytes (p + 1) bs (m(p := b))"

definition read_bytes :: "ptr \<Rightarrow> nat \<Rightarrow> (ptr \<Rightarrow> u8) \<Rightarrow> u8 list" where
  "read_bytes p n m = map (\<lambda>i. m (p + of_nat i)) [0..<n]"

fun device_effect :: "driver \<Rightarrow> call list \<Rightarrow> call \<Rightarrow> (ptr \<Rightarrow> u8) \<Rightarrow> (ptr \<Rightarrow> u8)" where
  "device_effect D h (cuMemsetD8Async p v n s) m = write_bytes p (replicate (unat n) v) m"
| "device_effect D h (cuMemcpyHtoDAsync p bytes n s) m = write_bytes p (take (unat n) bytes) m"
| "device_effect D h (cuLaunchKernel f gx gy gz bx sh s args) m =
     kernel_writes D h (cuLaunchKernel f gx gy gz bx sh s args) m"
| "device_effect D h c m = m"

text \<open>
  Modelled from the spec: \<open>JAX_AS_STATUS\<close> and \<open>JAX_RETURN_IF_ERROR\<close> come from
  gpu\_kernel\_helpers.h, which is not among the sources. By the spec a failed driver call
  is a DriverError that passes the driver's result on, and it is returned at once.

  \<open>cuda D out c\<close> makes the driver call \<open>c\<close>: the call is recorded; a result other than
  \<open>CUDA_SUCCESS\<close> becomes that status; a successful call has its effect on device memory
  and yields its out-parameter.
\<close>

definition cuda :: "driver \<Rightarrow> (call list \<Rightarrow> call \<Rightarrow> 'a) \<Rightarrow> call \<Rightarrow> (world, 'a) M" where
  "cuda D out c =
     (\<lambda>w. if cu_result D (trace w) c = 0
          then (Inr (out (trace w) c),
                w\<lparr>trace := trace w @ [c], mem := device_effect D (trace w) c (mem w)\<rparr>)
          else (Inl (DriverError (cu_result D (trace w) c)), w\<lparr>trace := trace w @ [c]\<rparr>))"

definition no_out :: "call list \<Rightarrow> call \<Rightarrow> unit" where
  "no_out h c = ()"

definition CompileGpuAsm_call :: "driver \<Rightarrow> i32 \<Rightarrow> i32 \<Rightarrow> string \<Rightarrow> (world, u8 list) M" where
  "CompileGpuAsm_call D cc_major cc_minor text =
     (\<lambda>w. (case assemble D (trace w) cc_major cc_minor text of
             Inl msg \<Rightarrow> Inl (CompilationError msg)
           | Inr module_image' \<Rightarrow> Inr module_image',
           w\<lparr>trace := trace w @ [CompileGpuAsm cc_major cc_minor text]\<rparr>))"

section \<open>The assembly cache and the function loader\<close>

text \<open>C++ \<open>int\<close> division and remainder truncate towards zero.\<close>

definition int_div :: "i32 \<Rightarrow> i32 \<Rightarrow> i32" where
  "int_div a b = word_of_int (sint a sdiv sint b)"

definition int_rem :: "i32 \<Rightarrow> i32 \<Rightarrow> i32" where
  "int_rem a b = word_of_int (sint a smod sint b)"

definition ModuleImage_new :: "string \<Rightarrow> u8 list \<Rightarrow> u32 \<Rightarrow> ModuleImage" where
  "ModuleImage_new kernel_name' module_image' shared_mem_bytes' =
     \<lparr>image_kernel_name = kernel_name', image_bytes = module_image',
      image_shared_mem_bytes = shared_mem_bytes', image_modules = [], image_functions = Map.empty\<rparr>"

definition insert_module_image :: "image_key \<Rightarrow> ModuleImage \<Rightarrow> (world, nat) M" where
  "insert_module_image key img =
     (\<lambda>w. (Inr (image_count w),
           w\<lparr>module_images := (module_images w)(key \<mapsto> image_count w),
             image_heap := (image_heap w)(image_count w := img),
             image_count := Suc (image_count w)\<rparr>))"

definition GetModuleImage :: "driver \<Rightarrow> string \<Rightarrow> u32 \<Rightarrow> string \<Rightarrow> i32 \<Rightarrow> (world, nat) M" where
  "GetModuleImage D kernel_name' shared_mem_bytes' ptx' compute_capability' =
     (\<lambda>w. case module_images w (kernel_name', shared_mem_bytes', ptx', compute_capability') of
            Some it \<Rightarrow> (Inr it, w)
          | None \<Rightarrow>
              bnd (CompileGpuAsm_call D (int_div compute_capability' 10)
                     (int_rem compute_capability' 10) ptx')
                (\<lambda>module_image'.
                   insert_module_image (kernel_name', shared_mem_bytes', ptx', compute_capability')
                     (ModuleImage_new kernel_name' module_image' shared_mem_bytes')) w)"

definition kMaxStaticSharedMemBytes :: i32 where
  "kMaxStaticSharedMemBytes = 49152"

text \<open>
  \<open>ModuleImage::GetFunctionForContext\<close>. The comparisons follow the C++ types:
  \<open>shared_mem_bytes_\<close> is unsigned, so comparing it with an \<open>int\<close> compares the bit
  patterns as unsigned numbers; \<open>shared_optin > kMaxStaticSharedMemBytes\<close> compares two
  \<open>int\<close>s.
\<close>

definition GetFunctionForContext :: "driver \<Rightarrow> handle \<Rightarrow> (ModuleImage \<times> world, handle) M" where
  "GetFunctionForContext D context =
     bnd get_obj (\<lambda>this.
       case image_functions this context of
         Some it \<Rightarrow> ret it
       | None \<Rightarrow>
           bnd (on_world (cuda D no_out (cuCtxPushCurrent context))) (\<lambda>_.
           cleanup (on_world (cuda D no_out cuCtxPopCurrent))
            (bnd (on_world (cuda D (out_handle D) (cuModuleLoadData (image_bytes this)))) (\<lambda>module.
             bnd (modify_obj (\<lambda>this. this\<lparr>image_modules := image_modules this @ [module]\<rparr>)) (\<lambda>_.
             bnd (on_world (cuda D (out_handle D)
                    (cuModuleGetFunction module (image_kernel_name this)))) (\<lambda>function.
             bnd (modify_obj (\<lambda>this. this\<lparr>image_functions := (image_functions this)(context \<mapsto> function)\<rparr>)) (\<lambda>_.
             if image_shared_mem_bytes this \<le> kMaxStaticSharedMemBytes then ret function
             else
               bnd (on_world (cuda D (out_handle D) cuCtxGetDevice)) (\<lambda>device.
               bnd (on_world (cuda D (out_int D)
                      (cuDeviceGetAttribute MAX_SHARED_MEMORY_PER_BLOCK_OPTIN device))) (\<lambda>shared_optin.
               if image_shared_mem_bytes this > shared_optin
               then fail (InvalidArgumentError
                            (Text ''Shared memory requested exceeds device resources.''))
               else if sint shared_optin > sint kMaxStaticSharedMemBytes
               then
                 bnd (on_world (cuda D no_out (cuFuncSetCacheConfig function))) (\<lambda>_.
                 bnd (on_world (cuda D (out_int D)
                        (cuDeviceGetAttribute MAX_SHARED_MEMORY_PER_MULTIPROCESSOR device))) (\<lambda>shared_total.
                 bnd (on_world (cuda D (out_int D)
                        (cuFuncGetAttribute SHARED_SIZE_BYTES function))) (\<lambda>shared_static.
                 bnd (on_world (cuda D no_out
                        (cuFuncSetAttribute function MAX_DYNAMIC_SHARED_SIZE_BYTES
                           (shared_optin - shared_static)))) (\<lambda>_.
                 ret function))))
               else ret function)))))))))"

section \<open>Launching\<close>

text \<open>\<open>module_image_->GetFunctionForContext(context)\<close>: the method runs on the object the
  pointer refers to.\<close>

definition at_image :: "nat \<Rightarrow> (ModuleImage \<times> world, 'a) M \<Rightarrow> (world, 'a) M" where
  "at_image img m =
     (\<lambda>w. case m (image_heap w img, w) of
            (r, (this, w')) \<Rightarrow> (r, w'\<lparr>image_heap := (image_heap w')(img := this)\<rparr>))"

definition Kernel_Launch ::
  "driver \<Rightarrow> handle \<Rightarrow> u32 \<times> u32 \<times> u32 \<Rightarrow> kernel_arg list \<Rightarrow> (Kernel \<times> world, unit) M" where
  "Kernel_Launch D stream grid' params =
     bnd get_obj (\<lambda>this.
     bnd (case module_image this of
            None \<Rightarrow>
              bnd (on_world (GetModuleImage D (kernel_name this) (shared_mem_bytes this)
                     (ptx this) (compute_capability this))) (\<lambda>img.
              bnd (modify_obj (\<lambda>this. this\<lparr>module_image := Some img\<rparr>)) (\<lambda>_.
              ret img))
          | Some img \<Rightarrow> ret img) (\<lambda>img.
     bnd (on_world (cuda D (out_handle D) (cuStreamGetCtx stream))) (\<lambda>context.
     bnd (on_world (at_image img (GetFunctionForContext D context))) (\<lambda>kernel'.
     on_world (cuda D no_out
       (cuLaunchKernel kernel' (fst grid') (fst (snd grid')) (snd (snd grid'))
          (block_dim_x this) (shared_mem_bytes this) stream params))))))"

text \<open>
  The parameter loop of \<open>KernelCall::Launch\<close>. \<open>i\<close> is the parameter index, \<open>j\<close> the cursor
  into \<open>buffers\<close> (\<open>*(buffers++)\<close>), which only array parameters advance. \<open>buffers\<close> is a
  bare \<open>void**\<close> without a length: a function from index to pointer.
\<close>

fun marshal ::
  "driver \<Rightarrow> handle \<Rightarrow> (nat \<Rightarrow> ptr) \<Rightarrow> Parameter list \<Rightarrow> nat \<Rightarrow> nat \<Rightarrow> kernel_arg list \<Rightarrow>
   (world, kernel_arg list) M" where
  "marshal D stream buffers [] i j params = ret params"
| "marshal D stream buffers (Array to_zero divisibility # rest) i j params =
     (if divisibility \<noteq> 0 \<and> buffers j mod divisibility \<noteq> 0
      then fail (InvalidArgumentError (NotDivisible i (buffers j) divisibility))
      else
        bnd (if to_zero > 0 then cuda D no_out (cuMemsetD8Async (buffers j) 0 to_zero stream)
             else ret ()) (\<lambda>_.
        marshal D stream buffers rest (Suc i) (Suc j) (params @ [BufferArg (buffers j)])))"
| "marshal D stream buffers (param # rest) i j params =
     marshal D stream buffers rest (Suc i) j (params @ [ScalarArg param])"

definition KernelCall_Launch :: "driver \<Rightarrow> handle \<Rightarrow> (nat \<Rightarrow> ptr) \<Rightarrow> (KernelCall \<times> world, unit) M" where
  "KernelCall_Launch D stream buffers =
     bnd get_obj (\<lambda>this.
     bnd (on_world (marshal D stream buffers (parameters this) 0 0 [])) (\<lambda>params.
     zoom kernel (\<lambda>k this. this\<lparr>kernel := k\<rparr>) (Kernel_Launch D stream (grid this) params)))"

section \<open>Autotuning\<close>

definition Benchmark ::
  "driver \<Rightarrow> handle \<Rightarrow> (nat \<Rightarrow> ptr) \<Rightarrow> nat \<Rightarrow> (KernelCall \<times> world, real) M" where
  "Benchmark D stream buffers num_iterations =
     bnd (on_world (cuda D (out_handle D) cuEventCreate)) (\<lambda>start.
     bnd (on_world (cuda D (out_handle D) cuEventCreate)) (\<lambda>stop.
     bnd (KernelCall_Launch D stream buffers) (\<lambda>_.
     bnd (on_world (cuda D no_out (cuEventRecord start stream))) (\<lambda>_.
     bnd (repeat num_iterations (KernelCall_Launch D stream buffers)) (\<lambda>_.
     bnd (on_world (cuda D no_out (cuEventRecord stop stream))) (\<lambda>_.
     bnd (on_world (cuda D no_out (cuEventSynchronize stop))) (\<lambda>_.
     bnd (on_world (cuda D (out_ms D) (cuEventElapsedTime start stop))) (\<lambda>elapsed_ms.
     bnd (on_world (cuda D no_out (cuEventDestroy start))) (\<lambda>_.
     bnd (on_world (cuda D no_out (cuEventDestroy stop))) (\<lambda>_.
     ret elapsed_ms))))))))))"

text \<open>\<open>float best\<close>: infinity until a time has been seen.\<close>

datatype best_time = Infinity | Finite real

fun min_time :: "best_time \<Rightarrow> real \<Rightarrow> best_time" where
  "min_time Infinity t = Finite t"
| "min_time (Finite b) t = Finite (min b t)"

fun below :: "real \<Rightarrow> best_time \<Rightarrow> bool" where
  "below t Infinity = True"
| "below t (Finite b) = (t < b)"

definition kBenchmarkTimeMillis :: real where
  "kBenchmarkTimeMillis = 10"

text \<open>\<open>std::max(static_cast<int>(kBenchmarkTimeMillis / best), 1)\<close>, capped at 100. For a
  \<open>best\<close> of zero the C++ conversion is undefined; here the quotient is 0 and the count 1.\<close>

fun timed_iters_of :: "best_time \<Rightarrow> nat" where
  "timed_iters_of Infinity = 1"
| "timed_iters_of (Finite b) = nat (min 100 (max \<lfloor>kBenchmarkTimeMillis / b\<rfloor> 1))"

definition at_config :: "nat \<Rightarrow> (KernelCall \<times> world, 'a) M \<Rightarrow> (AutotunedKernelCall \<times> world, 'a) M" where
  "at_config i m =
     zoom (\<lambda>this. kernel_call (configs this ! i))
          (\<lambda>kc this. this\<lparr>configs := (configs this)[i := (configs this ! i)\<lparr>kernel_call := kc\<rparr>]\<rparr>) m"

definition swap :: "nat \<Rightarrow> nat \<Rightarrow> 'a list \<Rightarrow> 'a list" where
  "swap i j xs = xs[i := xs ! j, j := xs ! i]"

text \<open>The snapshot loop: \<open>input_copies\<close> is the \<open>std::unordered_map\<close> from input index to
  host copy.\<close>

fun snapshot_inputs ::
  "driver \<Rightarrow> handle \<Rightarrow> (nat \<Rightarrow> ptr) \<Rightarrow> (u64 \<times> u64 \<times> u64) list \<Rightarrow> (u64 \<Rightarrow> u8 list option) \<Rightarrow>
   (world, u64 \<Rightarrow> u8 list option) M" where
  "snapshot_inputs D stream buffers [] input_copies = ret input_copies"
| "snapshot_inputs D stream buffers ((input_idx, output_idx, size') # rest) input_copies =
     (if buffers (unat input_idx) = buffers (unat output_idx)
      then
        bnd (cuda D (\<lambda>h c. ()) (cuMemcpyDtoHAsync (buffers (unat input_idx)) size' stream)) (\<lambda>_.
        bnd (\<lambda>w. (Inr (read_bytes (buffers (unat input_idx)) (unat size') (mem w)), w)) (\<lambda>input_copy.
        snapshot_inputs D stream buffers rest (input_copies(input_idx \<mapsto> input_copy))))
      else snapshot_inputs D stream buffers rest input_copies)"

text \<open>
  The restore loop. \<open>input_copies[input_idx]\<close> inserts an empty vector when the index has
  no copy; the driver then reads \<open>size\<close> bytes from \<open>data()\<close> of that vector. Reading more
  bytes than the vector holds is undefined behaviour.
\<close>

fun restore_inputs ::
  "driver \<Rightarrow> handle \<Rightarrow> (nat \<Rightarrow> ptr) \<Rightarrow> (u64 \<times> u64 \<times> u64) list \<Rightarrow> (u64 \<Rightarrow> u8 list option) \<Rightarrow>
   (world, unit) M" where
  "restore_inputs D stream buffers [] input_copies = ret ()"
| "restore_inputs D stream buffers ((input_idx, output_idx, size') # rest) input_copies =
     (let host = (case input_copies input_idx of None \<Rightarrow> [] | Some input_copy \<Rightarrow> input_copy)
      in if length host < unat size' then fail (Undefined HostBufferOverrun)
         else
           bnd (cuda D no_out
                  (cuMemcpyHtoDAsync (buffers (unat input_idx)) (take (unat size') host) size' stream)) (\<lambda>_.
           restore_inputs D stream buffers rest (input_copies(input_idx \<mapsto> host))))"

text \<open>Phase 1: one timed iteration of each config, \<open>best = std::min(best, t)\<close>. The loops
  run over the positions of \<open>configs_\<close>, whose length they do not change.\<close>

fun phase1 ::
  "driver \<Rightarrow> handle \<Rightarrow> (nat \<Rightarrow> ptr) \<Rightarrow> nat list \<Rightarrow> best_time \<Rightarrow>
   (AutotunedKernelCall \<times> world, best_time) M" where
  "phase1 D stream buffers [] best = ret best"
| "phase1 D stream buffers (i # rest) best =
     bnd (at_config i (Benchmark D stream buffers 1)) (\<lambda>t.
     phase1 D stream buffers rest (min_time best t))"

text \<open>Phase 2: \<open>if (t < best) { best = t; std::swap(config, configs_[0]); }\<close>.\<close>

fun phase2 ::
  "driver \<Rightarrow> handle \<Rightarrow> (nat \<Rightarrow> ptr) \<Rightarrow> nat \<Rightarrow> nat list \<Rightarrow> best_time \<Rightarrow>
   (AutotunedKernelCall \<times> world, unit) M" where
  "phase2 D stream buffers timed_iters [] best = ret ()"
| "phase2 D stream buffers timed_iters (i # rest) best =
     bnd (at_config i (Benchmark D stream buffers timed_iters)) (\<lambda>t.
     if below t best
     then bnd (modify_obj (\<lambda>this. this\<lparr>configs := swap i 0 (configs this)\<rparr>)) (\<lambda>_.
          phase2 D stream buffers timed_iters rest (Finite t))
     else phase2 D stream buffers timed_iters rest best)"

text \<open>\<open>configs_.erase(configs_.begin() + 1, configs_.end())\<close> and the read of
  \<open>configs_[0]\<close> that follows it need a first element.\<close>

definition discard_all_but_best :: "(AutotunedKernelCall \<times> world, unit) M" where
  "discard_all_but_best =
     bnd get_obj (\<lambda>this.
       case configs this of
         [] \<Rightarrow> fail (Undefined ConfigIndexOutOfRange)
       | c # _ \<Rightarrow> modify_obj (\<lambda>this. this\<lparr>configs := [c]\<rparr>))"

definition Autotune :: "driver \<Rightarrow> handle \<Rightarrow> (nat \<Rightarrow> ptr) \<Rightarrow> (AutotunedKernelCall \<times> world, unit) M" where
  "Autotune D stream buffers =
     bnd (on_world (cuda D (out_handle D) (cuStreamGetCtx stream))) (\<lambda>context.
     bnd (on_world (cuda D no_out (cuCtxPushCurrent context))) (\<lambda>_.
     cleanup (on_world (cuda D no_out cuCtxPopCurrent))
      (bnd get_obj (\<lambda>this.
       bnd (on_world (snapshot_inputs D stream buffers (input_output_aliases this) Map.empty))
         (\<lambda>input_copies.
       bnd (phase1 D stream buffers [0..<length (configs this)] Infinity) (\<lambda>best.
       bnd (phase2 D stream buffers (timed_iters_of best) [0..<length (configs this)] Infinity) (\<lambda>_.
       bnd discard_all_but_best (\<lambda>_.
       bnd (on_world (restore_inputs D stream buffers (input_output_aliases this) input_copies)) (\<lambda>_.
       on_world (cuda D no_out (cuStreamSynchronize stream)))))))))))"

text \<open>\<open>absl::call_once(autotune_once_, ...)\<close>: the callable runs on the first call only.\<close>

definition call_once_autotune ::
  "driver \<Rightarrow> handle \<Rightarrow> (nat \<Rightarrow> ptr) \<Rightarrow> (AutotunedKernelCall \<times> world, unit) M" where
  "call_once_autotune D stream buffers =
     (\<lambda>(this, w).
        if autotune_once this then (Inr (), (this, w))
        else if length (configs this) > 1
        then (case Autotune D stream buffers (this, w) of
                (Inl e, (this', w')) \<Rightarrow>
                  (Inr (), (this'\<lparr>autotune_status := Some e, autotune_once := True\<rparr>, w'))
              | (Inr _, (this', w')) \<Rightarrow>
                  (Inr (), (this'\<lparr>autotune_status := None, autotune_once := True\<rparr>, w')))
        else (Inr (), (this\<lparr>autotune_once := True\<rparr>, w)))"

definition Launch :: "driver \<Rightarrow> handle \<Rightarrow> (nat \<Rightarrow> ptr) \<Rightarrow> (AutotunedKernelCall \<times> world, unit) M" where
  "Launch D stream buffers =
     bnd (call_once_autotune D stream buffers) (\<lambda>_.
     bnd get_obj (\<lambda>this.
       case autotune_status this of
         Some e \<Rightarrow> fail e
       | None \<Rightarrow>
           (case configs this of
              [] \<Rightarrow> fail (Undefined ConfigIndexOutOfRange)
            | _ # _ \<Rightarrow> at_config 0 (KernelCall_Launch D stream buffers))))"

section \<open>Decompression\<close>








section \<open>Vocabulary of the statements\<close>

text \<open>
  The definitions of this section are not code of the unit: they name what the
  statements below talk about.
\<close>

fun is_array :: "Parameter \<Rightarrow> bool" where
  "is_array (Array z d) = True"
| "is_array p = False"

text \<open>The position in \<open>buffers\<close> of the pointer bound to parameter \<open>k\<close>: the number of array
  parameters before it.\<close>

definition cursor :: "Parameter list \<Rightarrow> nat \<Rightarrow> nat" where
  "cursor ps k = length (filter is_array (take k ps))"



text \<open>A method keeps a property of its object when the property holds after every run that
  starts with it, whatever the result of the run.\<close>

definition preserves :: "('o \<Rightarrow> bool) \<Rightarrow> ('o \<times> 'w, 'a) M \<Rightarrow> bool" where
  "preserves P m = (\<forall>obj w. P obj \<longrightarrow> P (fst (snd (m (obj, w)))))"

text \<open>
  The measurements of one pass over a list of configs: \<open>Benchmark\<close> is run on each config in
  list order, from the world the one before left, and gives the elapsed time and the
  config as the benchmark left it. \<open>None\<close> when a benchmark fails.
\<close>

fun measure_all ::
  "driver \<Rightarrow> handle \<Rightarrow> (nat \<Rightarrow> ptr) \<Rightarrow> nat \<Rightarrow> Config list \<Rightarrow> world \<Rightarrow>
   ((real \<times> Config) list \<times> world) option" where
  "measure_all D stream buffers n [] w = Some ([], w)"
| "measure_all D stream buffers n (c # cs) w =
     (case Benchmark D stream buffers n (kernel_call c, w) of
        (Inl e, s) \<Rightarrow> None
      | (Inr t, (kc, w1)) \<Rightarrow>
          (case measure_all D stream buffers n cs w1 of
             None \<Rightarrow> None
           | Some (ms, w2) \<Rightarrow> Some ((t, c\<lparr>kernel_call := kc\<rparr>) # ms, w2)))"

text \<open>
  The selection the spec compares the phase-2 loop with: one pass that keeps the best
  entry seen so far and replaces it only by an entry with a strictly smaller time, so
  that the earliest of the entries with the least time is kept.
\<close>

fun min_by_time :: "real \<times> 'a \<Rightarrow> (real \<times> 'a) list \<Rightarrow> real \<times> 'a" where
  "min_by_time best [] = best"
| "min_by_time best (x # xs) = min_by_time (if fst x < fst best then x else best) xs"







section \<open>Concrete instances\<close>

text \<open>A driver on which every call succeeds, an empty world, and small objects, for the
  concrete runs below.\<close>

definition quiet_driver :: driver where
  "quiet_driver =
     \<lparr>cu_result = (\<lambda>h c. 0), out_handle = (\<lambda>h c. 1), out_int = (\<lambda>h c. 65536),
      out_ms = (\<lambda>h c. 20), kernel_writes = (\<lambda>h c m. m), assemble = (\<lambda>h a b t. Inr [])\<rparr>"

text \<open>A driver on which every call succeeds and a later measurement gives a smaller time.\<close>

definition speeding_driver :: driver where
  "speeding_driver = quiet_driver\<lparr>out_ms := (\<lambda>h c. 100 - real (length h))\<rparr>"

text \<open>A driver on which every call fails, and one on which only the restoring of the
  context fails.\<close>

definition failing_driver :: driver where
  "failing_driver = quiet_driver\<lparr>cu_result := (\<lambda>h c. 1)\<rparr>"

definition pop_failing_driver :: driver where
  "pop_failing_driver = quiet_driver\<lparr>cu_result := (\<lambda>h c. if c = cuCtxPopCurrent then 1 else 0)\<rparr>"

definition empty_world :: world where
  "empty_world =
     \<lparr>trace = [], mem = (\<lambda>p. 0), module_images = Map.empty,
      image_heap = (\<lambda>r. ModuleImage_new [] [] 0), image_count = 0\<rparr>"

definition example_kernel_call :: KernelCall where
  "example_kernel_call =
     KernelCall_new (Kernel_new ''add_kernel'' 4 1024 ''.version 7.0'' ''module {}'' 80) 8 1 1
       [Array 64 16, Int32 7, Bool True, UInt64 9]"

definition example_autotuned :: AutotunedKernelCall where
  "example_autotuned =
     AutotunedKernelCall_new ''add''
       [\<lparr>kernel_call = example_kernel_call, description = ''BLOCK=128''\<rparr>,
        \<lparr>kernel_call = example_kernel_call\<lparr>grid := (4, 1, 1)\<rparr>, description = ''BLOCK=256''\<rparr>]
       [(0, 1, 64)]"


definition some_buffers :: "nat \<Rightarrow> ptr" where
  "some_buffers j = (if j = 0 then 256 else 257)"

definition config_A :: Config where
  "config_A = \<lparr>kernel_call = KernelCall_new (Kernel_new [] 1 0 [] [] 80) 1 1 1 [],
                description = ''A''\<rparr>"

definition config_B :: Config where
  "config_B = \<lparr>kernel_call = KernelCall_new (Kernel_new [] 2 0 [] [] 80) 1 1 1 [],
                description = ''B''\<rparr>"

definition two_configs :: AutotunedKernelCall where
  "two_configs = AutotunedKernelCall_new [] [config_A, config_B] []"





text \<open>The same call with input 0 declared to alias output 1, which \<open>some_buffers\<close> puts at
  another address.\<close>

definition unaliased_call :: AutotunedKernelCall where
  "unaliased_call = AutotunedKernelCall_new [] [config_A, config_B] [(0, 1, 4)]"


section \<open>The codec round trip\<close>

lemma Kernel_new_constructed:
  "Kernel_constructed (Kernel_new n w s p t c)"
proof -
  have "unat (w * 32) mod 32 = 0"
    by (simp add: unat_word_ariths mod_mod_cancel)
  then show ?thesis
    by (simp add: Kernel_constructed_def Kernel_new_def kNumThreadsPerWarp_def)
qed

lemma block_dim_roundtrip:
  fixes b :: u32
  assumes "unat b mod 32 = 0"
  shows "b div 32 * 32 = b"
proof -
  have lt: "unat b < 2 ^ 32"
    using unsigned_less [of b, where 'a = nat] by simp
  have "unat b div 32 * 32 = unat b"
    using assms by presburger
  then have "unat (b div 32 * 32) = unat b"
    using lt by (simp add: unat_word_ariths unat_div)
  then show ?thesis
    by (simp add: word_unat_eq_iff)
qed

lemma Kernel_roundtrip:
  "Kernel_constructed k \<Longrightarrow> Kernel_FromProto (Kernel_ToProto k) = Kernel_fresh k"
  by (simp add: Kernel_FromProto_def Kernel_ToProto_def Kernel_new_def Kernel_fresh_def
      Kernel_constructed_def kNumThreadsPerWarp_def block_dim_roundtrip)

lemma Parameter_roundtrip: "Parameter_FromProto (Parameter_ToProto p) = Inr p"
  by (cases p) simp_all

lemma parameters_roundtrip:
  "parameters_FromProto (map Parameter_ToProto ps) acc = Inr (acc @ ps)"
  by (induction ps arbitrary: acc) (simp_all add: Parameter_roundtrip)

lemma KernelCall_roundtrip:
  "KernelCall_constructed kc \<Longrightarrow>
   KernelCall_FromProto (KernelCall_ToProto kc) = Inr (KernelCall_fresh kc)"
  by (simp add: KernelCall_FromProto_def KernelCall_ToProto_def KernelCall_new_def
      KernelCall_fresh_def KernelCall_constructed_def parameters_roundtrip Kernel_roundtrip)

lemma configs_roundtrip:
  "list_all (\<lambda>config. KernelCall_constructed (kernel_call config)) cs \<Longrightarrow>
   configs_FromProto
     (map (\<lambda>config. \<lparr>p_kernel_call = KernelCall_ToProto (kernel_call config),
                      p_description = description config\<rparr>) cs) acc =
   Inr (acc @ map Config_fresh cs)"
proof (induction cs arbitrary: acc)
  case Nil
  then show ?case by simp
next
  case (Cons c cs)
  then show ?case
    by (simp add: KernelCall_roundtrip Config_fresh_def)
qed

lemma AutotunedKernelCall_roundtrip:
  assumes "AutotunedKernelCall_constructed a"
  shows "AutotunedKernelCall_FromProto (AutotunedKernelCall_ToProto a) =
         Inr (AutotunedKernelCall_fresh a)"
proof -
  have aliases: "map ((\<lambda>a. (p_input_buffer_idx a, p_output_buffer_idx a, p_buffer_size_bytes a)) \<circ>
            (\<lambda>(input_idx, output_idx, size).
               \<lparr>p_input_buffer_idx = input_idx, p_output_buffer_idx = output_idx,
                p_buffer_size_bytes = size\<rparr>)) xs = xs" for xs :: "(u64 \<times> u64 \<times> u64) list"
    by (induction xs) auto
  show ?thesis
    using assms
    by (simp add: AutotunedKernelCall_FromProto_def AutotunedKernelCall_ToProto_def
        AutotunedKernelCall_new_def AutotunedKernelCall_fresh_def
        AutotunedKernelCall_constructed_def configs_roundtrip aliases)
qed

text \<open>
  Claim C9. Encoding a \<open>KernelCall\<close> or an \<open>AutotunedKernelCall\<close> with \<open>ToProto\<close> and
  decoding the record with \<open>FromProto\<close> succeeds and gives the same object in the state
  a decoded object starts in: the kernel fields (name, block width and so warp count,
  shared-memory bytes, assembly, IR text, architecture), the grid, the ordered parameter
  list, the configs with their descriptions and the aliasing triples are the ones
  encoded; only what is not serialized (the resolved module image, the one-shot tuning
  state) is reset. The objects are those the constructors build: the block width is a
  multiple of the warp size.
\<close>

theorem ToProto_FromProto_roundtrip:
  "(KernelCall_constructed kc \<longrightarrow>
      KernelCall_FromProto (KernelCall_ToProto kc) = Inr (KernelCall_fresh kc)) \<and>
   (AutotunedKernelCall_constructed a \<longrightarrow>
      AutotunedKernelCall_FromProto (AutotunedKernelCall_ToProto a) =
      Inr (AutotunedKernelCall_fresh a))"
  by (simp add: KernelCall_roundtrip AutotunedKernelCall_roundtrip)

theorem ToProto_FromProto_roundtrip_witness:
  "KernelCall_constructed example_kernel_call \<and>
   KernelCall_FromProto (KernelCall_ToProto example_kernel_call) =
     Inr (KernelCall_fresh example_kernel_call) \<and>
   kernel_name (kernel (KernelCall_fresh example_kernel_call)) = ''add_kernel'' \<and>
   block_dim_x (kernel (KernelCall_fresh example_kernel_call)) = 128 \<and>
   AutotunedKernelCall_constructed example_autotuned \<and>
   AutotunedKernelCall_FromProto (AutotunedKernelCall_ToProto example_autotuned) =
     Inr (AutotunedKernelCall_fresh example_autotuned) \<and>
   length (configs (AutotunedKernelCall_fresh example_autotuned)) = 2"
proof -
  have k: "KernelCall_constructed example_kernel_call"
    by (simp add: example_kernel_call_def KernelCall_constructed_def KernelCall_new_def
        Kernel_new_constructed)
  have a: "AutotunedKernelCall_constructed example_autotuned"
    using k by (simp add: example_autotuned_def AutotunedKernelCall_constructed_def
        AutotunedKernelCall_new_def KernelCall_constructed_def)
  show ?thesis
    using k a ToProto_FromProto_roundtrip [of example_kernel_call example_autotuned]
    by (simp add: example_kernel_call_def example_autotuned_def KernelCall_fresh_def
        Kernel_fresh_def KernelCall_new_def Kernel_new_def kNumThreadsPerWarp_def
        AutotunedKernelCall_fresh_def AutotunedKernelCall_new_def)
qed

section \<open>Running the model\<close>

lemma bnd_apply:
  "bnd m f s = (case m s of (Inl e, s') \<Rightarrow> (Inl e, s') | (Inr x, s') \<Rightarrow> f x s')"
  by (simp add: bnd_def)

lemma ret_apply: "ret x s = (Inr x, s)"
  by (simp add: ret_def)

lemma fail_apply: "fail e s = (Inl e, s)"
  by (simp add: fail_def)

lemma cleanup_apply: "cleanup c m s = (case m s of (r, s') \<Rightarrow> (r, snd (c s')))"
  by (simp add: cleanup_def)

lemma get_obj_apply: "get_obj (obj, w) = (Inr obj, (obj, w))"
  by (simp add: get_obj_def)

lemma modify_obj_apply: "modify_obj f (obj, w) = (Inr (), (f obj, w))"
  by (simp add: modify_obj_def)

lemma on_world_apply: "on_world m (obj, w) = (case m w of (r, w') \<Rightarrow> (r, (obj, w')))"
  by (simp add: on_world_def)

lemma zoom_apply:
  "zoom g p m (obj, w) = (case m (g obj, w) of (r, (part, w')) \<Rightarrow> (r, (p part obj, w')))"
  by (simp add: zoom_def)

lemmas run_simps =
  bnd_apply ret_apply fail_apply cleanup_apply get_obj_apply modify_obj_apply on_world_apply
  zoom_apply




section \<open>The assembly cache\<close>









section \<open>The function loader\<close>

lemma GetFunctionForContext_cached:
  "image_functions this context = Some f \<Longrightarrow>
   GetFunctionForContext D context (this, w) = (Inr f, (this, w))"
  by (simp add: GetFunctionForContext_def run_simps)





section \<open>Parameter marshalling\<close>


lemma cursor_0 [simp]: "cursor ps 0 = 0"
  by (simp add: cursor_def)










section \<open>Following a successful run\<close>

lemma bnd_InrE:
  assumes "bnd m f s = (Inr y, s')"
  obtains x s1 where "m s = (Inr x, s1)" and "f x s1 = (Inr y, s')"
proof (cases "m s")
  case (Pair r s1)
  then show ?thesis
    using assms that by (cases r) (simp_all add: bnd_apply)
qed






section \<open>What a run keeps of its object\<close>

lemma preservesD: "preserves P m \<Longrightarrow> P obj \<Longrightarrow> P (fst (snd (m (obj, w))))"
  by (simp add: preserves_def)

lemma preserves_ret: "preserves P (ret x)"
  by (simp add: preserves_def ret_apply)

lemma preserves_fail: "preserves P (fail e)"
  by (simp add: preserves_def fail_apply)

lemma preserves_get_obj: "preserves P get_obj"
  by (simp add: preserves_def get_obj_apply)

lemma preserves_on_world: "preserves P (on_world m)"
  by (simp add: preserves_def on_world_apply split: prod.splits)

lemma preserves_modify_obj: "(\<And>obj. P obj \<Longrightarrow> P (f obj)) \<Longrightarrow> preserves P (modify_obj f)"
  by (simp add: preserves_def modify_obj_apply)

lemma preserves_bnd:
  assumes "preserves P m" and "\<And>x. preserves P (f x)"
  shows "preserves P (bnd m f)"
  unfolding preserves_def
proof (intro allI impI)
  fix obj w
  assume P: "P obj"
  obtain r obj1 w1 where m: "m (obj, w) = (r, (obj1, w1))"
    by (metis surj_pair)
  have P1: "P obj1"
    using preservesD [OF assms(1) P, of w] m by simp
  show "P (fst (snd (bnd m f (obj, w))))"
  proof (cases r)
    case (Inl e)
    then show ?thesis using m P1 by (simp add: bnd_apply)
  next
    case (Inr x)
    then show ?thesis
      using m preservesD [OF assms(2) P1, of x w1] by (simp add: bnd_apply)
  qed
qed

lemma preserves_cleanup:
  assumes "preserves P c" and "preserves P m"
  shows "preserves P (cleanup c m)"
  unfolding preserves_def
proof (intro allI impI)
  fix obj w
  assume P: "P obj"
  obtain r obj1 w1 where m: "m (obj, w) = (r, (obj1, w1))"
    by (metis surj_pair)
  have "P obj1"
    using preservesD [OF assms(2) P, of w] m by simp
  then show "P (fst (snd (cleanup c m (obj, w))))"
    using m preservesD [OF assms(1), of obj1 w1] by (simp add: cleanup_apply)
qed

lemma preserves_zoom:
  assumes "preserves Q m" and "\<And>obj. P obj \<Longrightarrow> Q (g obj)"
    and "\<And>obj part. P obj \<Longrightarrow> Q part \<Longrightarrow> P (p part obj)"
  shows "preserves P (zoom g p m)"
  unfolding preserves_def
proof (intro allI impI)
  fix obj w
  assume P: "P obj"
  obtain r part w1 where m: "m (g obj, w) = (r, (part, w1))"
    by (metis surj_pair)
  have "Q part"
    using preservesD [OF assms(1) assms(2) [OF P], of w] m by simp
  then show "P (fst (snd (zoom g p m (obj, w))))"
    using m P assms(3) by (simp add: zoom_apply)
qed

lemma preserves_zoom_any:
  assumes "\<And>obj part. P obj \<Longrightarrow> P (p part obj)"
  shows "preserves P (zoom g p m)"
  using assms by (simp add: preserves_def zoom_apply split: prod.splits)

lemma preserves_if:
  "preserves P m \<Longrightarrow> preserves P n \<Longrightarrow> preserves P (if b then m else n)"
  by simp

lemma preserves_repeat: "preserves P m \<Longrightarrow> preserves P (repeat n m)"
  by (induction n) (simp_all add: preserves_ret preserves_bnd)

lemmas preserves_intros =
  preserves_ret preserves_fail preserves_get_obj preserves_on_world preserves_bnd
  preserves_cleanup preserves_if preserves_repeat

text \<open>The loops and the discard step never empty the config list.\<close>

lemma preserves_at_config_length:
  "preserves (\<lambda>this. P (length (configs this))) (at_config i m)"
  unfolding at_config_def by (rule preserves_zoom_any) simp

lemma preserves_phase1_length:
  "preserves (\<lambda>this. P (length (configs this))) (phase1 D stream buffers is best)"
  by (induction "is" arbitrary: best)
    (simp_all add: preserves_ret preserves_bnd preserves_at_config_length)

lemma preserves_phase2_length:
  "preserves (\<lambda>this. P (length (configs this))) (phase2 D stream buffers n is best)"
proof (induction "is" arbitrary: best)
  case Nil
  then show ?case by (simp add: preserves_ret)
next
  case (Cons i "is")
  show ?case
    by (simp del: bnd_apply)
      (intro preserves_bnd preserves_at_config_length preserves_if preserves_modify_obj Cons.IH,
        simp add: swap_def)
qed

lemma preserves_discard_nonempty:
  "preserves (\<lambda>this. configs this \<noteq> []) discard_all_but_best"
  unfolding discard_all_but_best_def
  by (simp add: preserves_def run_simps split: list.splits)

lemma preserves_Autotune_nonempty:
  "preserves (\<lambda>this. configs this \<noteq> []) (Autotune D stream buffers)"
proof -
  have l: "(\<lambda>this. configs this \<noteq> []) = (\<lambda>this. 0 < length (configs this))"
    by simp
  show ?thesis
    unfolding Autotune_def
    by (intro preserves_intros preserves_discard_nonempty allI)
      (simp_all only: l preserves_phase1_length preserves_phase2_length)
qed

section \<open>The dispatch after the tuning gate\<close>

lemma call_once_autotune_result: "fst (call_once_autotune D stream buffers s) = Inr ()"
  by (cases s) (simp add: call_once_autotune_def split: prod.splits sum.splits)

lemma call_once_autotune_nonempty:
  assumes "configs this \<noteq> []"
  shows "configs (fst (snd (call_once_autotune D stream buffers (this, w)))) \<noteq> []"
proof -
  have "configs (fst (snd (Autotune D stream buffers (this, w)))) \<noteq> []"
    using preservesD [OF preserves_Autotune_nonempty, of this D stream buffers w] assms by simp
  then show ?thesis
    using assms
    by (auto simp add: call_once_autotune_def split: prod.splits sum.splits)
qed

text \<open>
  Claim C10. When the config list of an \<open>AutotunedKernelCall\<close> is not empty, it is not
  empty after the tuning gate of \<open>Launch\<close> either, whatever the gate did (nothing, a
  successful tuning that kept one config, or a failed tuning that kept them all): the
  dispatch finds \<open>configs_[0]\<close>, and \<open>Launch\<close> is the stored failure or the launch of the
  first config. The precondition is needed: with no config and no stored failure the gate
  skips tuning and the dispatch indexes the empty list.
\<close>

theorem Launch_index_in_bounds:
  "(configs this \<noteq> [] \<longrightarrow>
      configs (fst (snd (call_once_autotune D stream buffers (this, w)))) \<noteq> [] \<and>
      Launch D stream buffers (this, w) =
        (case autotune_status (fst (snd (call_once_autotune D stream buffers (this, w)))) of
           Some e \<Rightarrow> (Inl e, snd (call_once_autotune D stream buffers (this, w)))
         | None \<Rightarrow> at_config 0 (KernelCall_Launch D stream buffers)
                    (snd (call_once_autotune D stream buffers (this, w))))) \<and>
   (configs this = [] \<and> autotune_status this = None \<longrightarrow>
      configs (fst (snd (call_once_autotune D stream buffers (this, w)))) = [] \<and>
      fst (Launch D stream buffers (this, w)) = Inl (Undefined ConfigIndexOutOfRange))"
proof (intro conjI impI)
  assume ne: "configs this \<noteq> []"
  obtain r this' w' where g: "call_once_autotune D stream buffers (this, w) = (r, (this', w'))"
    by (metis surj_pair)
  have r: "r = Inr ()"
    using call_once_autotune_result [of D stream buffers "(this, w)"] g by simp
  have ne': "configs this' \<noteq> []"
    using call_once_autotune_nonempty [OF ne, of D stream buffers w] g by simp
  show "configs (fst (snd (call_once_autotune D stream buffers (this, w)))) \<noteq> []"
    using ne' g by simp
  show "Launch D stream buffers (this, w) =
        (case autotune_status (fst (snd (call_once_autotune D stream buffers (this, w)))) of
           Some e \<Rightarrow> (Inl e, snd (call_once_autotune D stream buffers (this, w)))
         | None \<Rightarrow> at_config 0 (KernelCall_Launch D stream buffers)
                    (snd (call_once_autotune D stream buffers (this, w))))"
    using ne' by (cases "configs this'")
      (simp_all add: Launch_def bnd_apply g r get_obj_apply fail_apply split: option.splits)
next
  assume e: "configs this = [] \<and> autotune_status this = None"
  then show "configs (fst (snd (call_once_autotune D stream buffers (this, w)))) = []"
    by (simp add: call_once_autotune_def)
  show "fst (Launch D stream buffers (this, w)) = Inl (Undefined ConfigIndexOutOfRange)"
    using e by (simp add: Launch_def call_once_autotune_def run_simps)
qed

theorem Launch_index_in_bounds_witness:
  "configs two_configs \<noteq> [] \<and>
   configs (fst (snd (call_once_autotune quiet_driver 0 some_buffers (two_configs, empty_world)))) \<noteq> [] \<and>
   configs (AutotunedKernelCall_new [] [] []) = [] \<and>
   autotune_status (AutotunedKernelCall_new [] [] []) = None \<and>
   fst (Launch quiet_driver 0 some_buffers (AutotunedKernelCall_new [] [] [], empty_world)) =
     Inl (Undefined ConfigIndexOutOfRange)"
proof -
  have a: "configs two_configs \<noteq> []"
    by (simp add: two_configs_def AutotunedKernelCall_new_def)
  have b: "configs (AutotunedKernelCall_new [] [] []) = [] \<and>
           autotune_status (AutotunedKernelCall_new [] [] []) = None"
    by (simp add: AutotunedKernelCall_new_def)
  show ?thesis
    using a b
      Launch_index_in_bounds [of two_configs quiet_driver 0 some_buffers empty_world]
      Launch_index_in_bounds [of "AutotunedKernelCall_new [] [] []" quiet_driver 0 some_buffers
        empty_world]
    by simp
qed

section \<open>The selection of phase 2\<close>

lemma min_by_time_snoc:
  "min_by_time b (xs @ [x]) =
     (if fst x < fst (min_by_time b xs) then x else min_by_time b xs)"
  by (induction xs arbitrary: b) simp_all

lemma min_by_time_earliest_minimum:
  "\<exists>k<length (b # xs). min_by_time b xs = (b # xs) ! k \<and>
      (\<forall>j<length (b # xs). fst ((b # xs) ! k) \<le> fst ((b # xs) ! j)) \<and>
      (\<forall>j<k. fst ((b # xs) ! k) < fst ((b # xs) ! j))"
proof (induction xs rule: rev_induct)
  case Nil
  then show ?case by simp
next
  case (snoc x xs)
  then obtain k where k: "k < length (b # xs)" "min_by_time b xs = (b # xs) ! k"
    and le: "\<forall>j<length (b # xs). fst ((b # xs) ! k) \<le> fst ((b # xs) ! j)"
    and lt: "\<forall>j<k. fst ((b # xs) ! k) < fst ((b # xs) ! j)"
    by blast
  have old: "(b # xs @ [x]) ! j = (b # xs) ! j" if "j < length (b # xs)" for j
    using that by (metis append_Cons nth_append)
  have last: "(b # xs @ [x]) ! length (b # xs) = x"
    by (metis append_Cons nth_append_length)
  show ?case
  proof (cases "fst x < fst (min_by_time b xs)")
    case True
    have "\<forall>j<length (b # xs @ [x]). fst x \<le> fst ((b # xs @ [x]) ! j)"
    proof (intro allI impI)
      fix j assume "j < length (b # xs @ [x])"
      then consider "j < length (b # xs)" | "j = length (b # xs)"
        by fastforce
      then show "fst x \<le> fst ((b # xs @ [x]) ! j)"
      proof cases
        case 1
        then show ?thesis
          using True le k(2) old [OF 1] by fastforce
      next
        case 2
        then show ?thesis using last by simp
      qed
    qed
    moreover have "\<forall>j<length (b # xs). fst x < fst ((b # xs @ [x]) ! j)"
    proof (intro allI impI)
      fix j assume j: "j < length (b # xs)"
      then show "fst x < fst ((b # xs @ [x]) ! j)"
        using True le k(2) old [OF j] by fastforce
    qed
    ultimately show ?thesis
      using True last
      by (intro exI [of _ "length (b # xs)"]) (simp add: min_by_time_snoc)
  next
    case False
    have "\<forall>j<length (b # xs @ [x]). fst ((b # xs) ! k) \<le> fst ((b # xs @ [x]) ! j)"
    proof (intro allI impI)
      fix j assume "j < length (b # xs @ [x])"
      then consider "j < length (b # xs)" | "j = length (b # xs)"
        by fastforce
      then show "fst ((b # xs) ! k) \<le> fst ((b # xs @ [x]) ! j)"
      proof cases
        case 1
        then show ?thesis
          using le old [OF 1] by simp
      next
        case 2
        then show ?thesis
          using False last k(2) by simp
      qed
    qed
    moreover have "\<forall>j<k. fst ((b # xs) ! k) < fst ((b # xs @ [x]) ! j)"
      using lt k(1) old by simp
    ultimately show ?thesis
      using False k old [OF k(1)]
      by (intro exI [of _ k]) (simp add: min_by_time_snoc)
  qed
qed

lemma at_config_Inr:
  assumes "at_config i m (this, w) = (Inr t, s1)"
  shows "\<exists>kc w1. m (kernel_call (configs this ! i), w) = (Inr t, (kc, w1)) \<and>
           s1 = (this\<lparr>configs := (configs this)[i := (configs this ! i)\<lparr>kernel_call := kc\<rparr>]\<rparr>, w1)"
  using assms
  by (cases "m (kernel_call (configs this ! i), w)")
    (auto simp add: at_config_def zoom_apply)

lemma phase2_selects_from:
  assumes "phase2 D stream buffers n is (Finite tb) (this, w) = (Inr u, (this', w'))"
    and "distinct is" and "\<forall>j\<in>set is. 0 < j \<and> j < length (configs this)"
  shows "\<exists>ms. measure_all D stream buffers n (map (\<lambda>j. configs this ! j) is) w = Some (ms, w') \<and>
           length ms = length is \<and>
           configs this' ! 0 = snd (min_by_time (tb, configs this ! 0) ms)"
  using assms
proof (induction "is" arbitrary: tb this w)
  case Nil
  then show ?case by (simp add: ret_apply)
next
  case (Cons i "is")
  let ?cs = "configs this"
  from Cons.prems(1) obtain t s1 where
    b: "at_config i (Benchmark D stream buffers n) (this, w) = (Inr t, s1)"
    and r: "(if below t (Finite tb)
             then bnd (modify_obj (\<lambda>this. this\<lparr>configs := swap i 0 (configs this)\<rparr>)) (\<lambda>_.
                  phase2 D stream buffers n is (Finite t))
             else phase2 D stream buffers n is (Finite tb)) s1 = (Inr u, (this', w'))"
    unfolding phase2.simps by (rule bnd_InrE)
  from at_config_Inr [OF b] obtain kc w1 where
    bm: "Benchmark D stream buffers n (kernel_call (?cs ! i), w) = (Inr t, (kc, w1))"
    and s1: "s1 = (this\<lparr>configs := ?cs[i := (?cs ! i)\<lparr>kernel_call := kc\<rparr>]\<rparr>, w1)"
    by blast
  let ?c = "(?cs ! i)\<lparr>kernel_call := kc\<rparr>"
  let ?cs1 = "?cs[i := ?c]"
  have i: "0 < i" "i < length ?cs" "i \<notin> set is" "distinct is"
    using Cons.prems(2,3) by simp_all
  have rest: "\<forall>j\<in>set is. 0 < j \<and> j < length ?cs \<and> j \<noteq> i"
    using Cons.prems(2,3) by auto
  show ?case
  proof (cases "t < tb")
    case True
    let ?this2 = "this\<lparr>configs := swap i 0 ?cs1\<rparr>"
    have run: "phase2 D stream buffers n is (Finite t) (?this2, w1) = (Inr u, (this', w'))"
      using r True by (simp add: s1 bnd_apply modify_obj_apply)
    have len: "length (configs ?this2) = length ?cs"
      by (simp add: swap_def)
    have pos: "0 < length ?cs"
      using i(2) by linarith
    have zero: "configs ?this2 ! 0 = ?c"
      using i(2) pos by (simp add: swap_def del: length_greater_0_conv)
    have same: "map (\<lambda>j. configs ?this2 ! j) is = map (\<lambda>j. ?cs ! j) is"
      using rest by (auto simp add: swap_def)
    from Cons.IH [OF run i(4)] rest len
    obtain ms where ms: "measure_all D stream buffers n (map (\<lambda>j. configs ?this2 ! j) is) w1 = Some (ms, w')"
      "length ms = length is"
      "configs this' ! 0 = snd (min_by_time (t, configs ?this2 ! 0) ms)"
      by auto
    have ms1: "measure_all D stream buffers n (map (\<lambda>j. ?cs ! j) is) w1 = Some (ms, w')"
      using ms(1) unfolding same .
    have ms3: "configs this' ! 0 = snd (min_by_time (t, ?c) ms)"
      using ms(3) unfolding zero .
    show ?thesis
      using ms1 ms(2) ms3 True bm
      by (intro exI [of _ "(t, ?c) # ms"]) simp
  next
    case False
    let ?this1 = "this\<lparr>configs := ?cs1\<rparr>"
    have run: "phase2 D stream buffers n is (Finite tb) (?this1, w1) = (Inr u, (this', w'))"
      using r False by (simp add: s1)
    have zero: "configs ?this1 ! 0 = ?cs ! 0"
      using i by simp
    have same: "map (\<lambda>j. configs ?this1 ! j) is = map (\<lambda>j. ?cs ! j) is"
      using rest by auto
    from Cons.IH [OF run i(4)] rest
    obtain ms where ms: "measure_all D stream buffers n (map (\<lambda>j. configs ?this1 ! j) is) w1 = Some (ms, w')"
      "length ms = length is"
      "configs this' ! 0 = snd (min_by_time (tb, configs ?this1 ! 0) ms)"
      by auto
    have ms1: "measure_all D stream buffers n (map (\<lambda>j. ?cs ! j) is) w1 = Some (ms, w')"
      using ms(1) unfolding same .
    have ms3: "configs this' ! 0 = snd (min_by_time (tb, ?cs ! 0) ms)"
      using ms(3) unfolding zero .
    show ?thesis
      using ms1 ms(2) ms3 False bm
      by (intro exI [of _ "(t, ?c) # ms"]) simp
  qed
qed

lemma phase2_selects:
  assumes "configs this \<noteq> []"
    and "phase2 D stream buffers n [0..<length (configs this)] Infinity (this, w) =
           (Inr u, (this', w'))"
  shows "\<exists>ms. measure_all D stream buffers n (configs this) w = Some (ms, w') \<and>
           length ms = length (configs this) \<and>
           configs this' ! 0 = snd (min_by_time (hd ms) (tl ms))"
proof -
  let ?cs = "configs this"
  let ?len = "length ?cs"
  have upt: "[0..<?len] = 0 # [1..<?len]"
    using assms(1) by (simp add: upt_rec)
  from assms(2) obtain t s1 where
    b: "at_config 0 (Benchmark D stream buffers n) (this, w) = (Inr t, s1)"
    and r: "(if below t Infinity
             then bnd (modify_obj (\<lambda>this. this\<lparr>configs := swap 0 0 (configs this)\<rparr>)) (\<lambda>_.
                  phase2 D stream buffers n [1..<?len] (Finite t))
             else phase2 D stream buffers n [1..<?len] Infinity) s1 = (Inr u, (this', w'))"
    unfolding upt phase2.simps by (rule bnd_InrE)
  from at_config_Inr [OF b] obtain kc w1 where
    bm: "Benchmark D stream buffers n (kernel_call (?cs ! 0), w) = (Inr t, (kc, w1))"
    and s1: "s1 = (this\<lparr>configs := ?cs[0 := (?cs ! 0)\<lparr>kernel_call := kc\<rparr>]\<rparr>, w1)"
    by blast
  let ?c = "(?cs ! 0)\<lparr>kernel_call := kc\<rparr>"
  let ?this1 = "this\<lparr>configs := ?cs[0 := ?c]\<rparr>"
  have run: "phase2 D stream buffers n [1..<?len] (Finite t) (?this1, w1) = (Inr u, (this', w'))"
    using r by (simp add: s1 bnd_apply modify_obj_apply swap_def)
  have "\<exists>ms. measure_all D stream buffers n (map (\<lambda>j. configs ?this1 ! j) [1..<?len]) w1 = Some (ms, w') \<and>
           length ms = length [1..<?len] \<and>
           configs this' ! 0 = snd (min_by_time (t, configs ?this1 ! 0) ms)"
    by (rule phase2_selects_from [OF run]) simp_all
  then obtain ms where ms: "measure_all D stream buffers n (map (\<lambda>j. configs ?this1 ! j) [1..<?len]) w1 = Some (ms, w')"
      "length ms = length [1..<?len]"
      "configs this' ! 0 = snd (min_by_time (t, configs ?this1 ! 0) ms)"
    by blast
  have same: "map (\<lambda>j. configs ?this1 ! j) [1..<?len] = map (\<lambda>j. ?cs ! j) [1..<?len]"
    by simp
  have "?cs = map (\<lambda>j. ?cs ! j) [0..<?len]"
    by (simp add: map_nth)
  then have split: "?cs = ?cs ! 0 # map (\<lambda>j. ?cs ! j) [1..<?len]"
    unfolding upt by simp
  have zero: "configs ?this1 ! 0 = ?c"
    using assms(1) by simp
  have ms1: "measure_all D stream buffers n (map (\<lambda>j. ?cs ! j) [1..<?len]) w1 = Some (ms, w')"
    using ms(1) unfolding same .
  have "measure_all D stream buffers n (?cs ! 0 # map (\<lambda>j. ?cs ! j) [1..<?len]) w =
          Some ((t, ?c) # ms, w')"
    using ms1 bm by simp
  then have "measure_all D stream buffers n ?cs w = Some ((t, ?c) # ms, w')"
    unfolding split [symmetric] .
  moreover have "length ((t, ?c) # ms) = ?len"
  proof -
    have "0 < ?len"
      using assms(1) by simp
    moreover have "length ms = ?len - 1"
      using ms(2) by (simp only: length_upt)
    ultimately show ?thesis
      by simp
  qed
  moreover have "configs this' ! 0 = snd (min_by_time (hd ((t, ?c) # ms)) (tl ((t, ?c) # ms)))"
    using ms(3) unfolding zero by simp
  ultimately show ?thesis
    by blast
qed

lemma preserves_Kernel_Launch:
  "preserves (\<lambda>k. Kernel_fresh k = K) (Kernel_Launch D stream g params)"
  unfolding Kernel_Launch_def
  by (auto intro!: preserves_intros preserves_modify_obj split: option.split
      simp add: Kernel_fresh_def)

lemma preserves_KernelCall_Launch:
  "preserves (\<lambda>kc. KernelCall_fresh kc = KC) (KernelCall_Launch D stream buffers)"
  unfolding KernelCall_Launch_def
proof (intro preserves_intros allI)
  fix this params
  show "preserves (\<lambda>kc. KernelCall_fresh kc = KC)
          (zoom kernel (\<lambda>k this. this\<lparr>kernel := k\<rparr>) (Kernel_Launch D stream (grid this) params))"
    by (rule preserves_zoom [where Q = "\<lambda>k. Kernel_fresh k = kernel KC"])
      (auto simp add: preserves_Kernel_Launch KernelCall_fresh_def)
qed

lemma preserves_Benchmark:
  "preserves (\<lambda>kc. KernelCall_fresh kc = KC) (Benchmark D stream buffers n)"
  unfolding Benchmark_def
  by (intro preserves_intros preserves_KernelCall_Launch allI)

lemma measure_all_fresh:
  "measure_all D stream buffers n cs w = Some (ms, w') \<Longrightarrow>
   map (\<lambda>m. Config_fresh (snd m)) ms = map Config_fresh cs"
proof (induction cs arbitrary: w ms)
  case Nil
  then show ?case by simp
next
  case (Cons c cs)
  obtain r kc w1 where b: "Benchmark D stream buffers n (kernel_call c, w) = (r, (kc, w1))"
    by (metis surj_pair)
  have kc: "KernelCall_fresh kc = KernelCall_fresh (kernel_call c)"
    using preservesD [OF preserves_Benchmark, of "kernel_call c" "KernelCall_fresh (kernel_call c)"
        D stream buffers n w] b by simp
  from Cons.prems b obtain t ms1 where t: "r = Inr t"
    and ms1: "measure_all D stream buffers n cs w1 = Some (ms1, w')"
    and ms: "ms = (t, c\<lparr>kernel_call := kc\<rparr>) # ms1"
    by (auto split: sum.splits option.splits)
  show ?case
    using Cons.IH [OF ms1] kc by (simp add: ms Config_fresh_def)
qed

text \<open>
  Claim C5. Take a non-empty list of configs and a run of the phase-2 loop that
  completes, so that every config has its measured time (a real number). The
  measurements are those of one pass over the configs as they were in order, each entry
  being the config it was taken from (up to the resolved module image). After the loop,
  slot 0 holds the config that the single-pass selection by time picks from them (a
  later entry replaces the best only when strictly faster): the entry at the first index
  \<open>k\<close> whose time is minimal, strictly below every earlier time.
\<close>

theorem phase2_selects_earliest_minimum:
  assumes "configs this \<noteq> []"
    and "fst (phase2 D stream buffers n [0..<length (configs this)] Infinity (this, w)) = Inr ()"
  shows "\<exists>ms k.
     measure_all D stream buffers n (configs this) w =
       Some (ms, snd (snd (phase2 D stream buffers n [0..<length (configs this)] Infinity (this, w)))) \<and>
     length ms = length (configs this) \<and>
     map (\<lambda>m. Config_fresh (snd m)) ms = map Config_fresh (configs this) \<and>
     configs (fst (snd (phase2 D stream buffers n [0..<length (configs this)] Infinity (this, w)))) ! 0 =
       snd (min_by_time (hd ms) (tl ms)) \<and>
     k < length ms \<and>
     snd (min_by_time (hd ms) (tl ms)) = snd (ms ! k) \<and>
     (\<forall>j<length ms. fst (ms ! k) \<le> fst (ms ! j)) \<and>
     (\<forall>j<k. fst (ms ! k) < fst (ms ! j))"
proof -
  let ?run = "phase2 D stream buffers n [0..<length (configs this)] Infinity (this, w)"
  have run: "?run = (Inr (), (fst (snd ?run), snd (snd ?run)))"
    using assms(2) by (metis prod.collapse)
  from phase2_selects [OF assms(1) run]
  obtain ms where ms: "measure_all D stream buffers n (configs this) w = Some (ms, snd (snd ?run))"
    "length ms = length (configs this)"
    "configs (fst (snd ?run)) ! 0 = snd (min_by_time (hd ms) (tl ms))"
    by blast
  have ne: "ms \<noteq> []"
    using ms(2) assms(1) by auto
  then have hdtl: "hd ms # tl ms = ms"
    by simp
  from min_by_time_earliest_minimum [of "hd ms" "tl ms"]
  obtain k where k: "k < length ms" "min_by_time (hd ms) (tl ms) = ms ! k"
    "\<forall>j<length ms. fst (ms ! k) \<le> fst (ms ! j)" "\<forall>j<k. fst (ms ! k) < fst (ms ! j)"
    unfolding hdtl by blast
  show ?thesis
    using ms k measure_all_fresh [OF ms(1)]
    by (intro exI [of _ ms] exI [of _ k]) simp
qed

lemmas model_defs = Launch_def call_once_autotune_def Autotune_def discard_all_but_best_def
  at_config_def swap_def Benchmark_def KernelCall_Launch_def Kernel_Launch_def at_image_def
  GetFunctionForContext_def GetModuleImage_def insert_module_image_def CompileGpuAsm_call_def
  ModuleImage_new_def kMaxStaticSharedMemBytes_def kBenchmarkTimeMillis_def cuda_def no_out_def

lemmas object_defs = two_configs_def config_A_def config_B_def AutotunedKernelCall_new_def
  KernelCall_new_def Kernel_new_def kNumThreadsPerWarp_def

lemmas driver_defs = quiet_driver_def speeding_driver_def failing_driver_def
  pop_failing_driver_def empty_world_def some_buffers_def

theorem phase2_selects_earliest_minimum_witness:
  "configs two_configs \<noteq> [] \<and>
   fst (phase2 speeding_driver 0 some_buffers 1 [0..<length (configs two_configs)] Infinity
          (two_configs, empty_world)) = Inr () \<and>
   description (configs (fst (snd (phase2 speeding_driver 0 some_buffers 1
        [0..<length (configs two_configs)] Infinity (two_configs, empty_world)))) ! 0) = ''B'' \<and>
   (\<exists>ms k.
     measure_all speeding_driver 0 some_buffers 1 (configs two_configs) empty_world =
       Some (ms, snd (snd (phase2 speeding_driver 0 some_buffers 1
          [0..<length (configs two_configs)] Infinity (two_configs, empty_world)))) \<and>
     configs (fst (snd (phase2 speeding_driver 0 some_buffers 1
          [0..<length (configs two_configs)] Infinity (two_configs, empty_world)))) ! 0 =
       snd (min_by_time (hd ms) (tl ms)) \<and>
     k < length ms \<and>
     snd (min_by_time (hd ms) (tl ms)) = snd (ms ! k) \<and>
     (\<forall>j<length ms. fst (ms ! k) \<le> fst (ms ! j)))"
proof -
  have ne: "configs two_configs \<noteq> []"
    by (simp add: object_defs)
  have ok: "fst (phase2 speeding_driver 0 some_buffers 1 [0..<length (configs two_configs)] Infinity
          (two_configs, empty_world)) = Inr ()"
    by (simp add: model_defs object_defs run_simps driver_defs upt_rec)
  have B: "description (configs (fst (snd (phase2 speeding_driver 0 some_buffers 1
        [0..<length (configs two_configs)] Infinity (two_configs, empty_world)))) ! 0) = ''B''"
    by (simp add: model_defs object_defs run_simps driver_defs upt_rec)
  show ?thesis
    using ne ok B phase2_selects_earliest_minimum [OF ne ok]
    by blast
qed

section \<open>Tuning once\<close>




lemma preserves_KernelCall_Launch_any:
  "preserves (\<lambda>this. P (length (configs this))) (at_config i m)"
  by (rule preserves_at_config_length)











section \<open>A failed driver call ends the run\<close>









































section \<open>Decompression grows its buffer\<close>











section \<open>Snapshot and restore\<close>














text \<open>When the input and the output of a triple are at different addresses no copy is
  taken, and the restore loop reads the bytes of the triple from an empty host vector: the
  pass has left defined behaviour, and is no pass that returns OK.\<close>

lemma Autotune_unaliased_triple:
  "input_output_aliases unaliased_call = [(0, 1, 4)] \<and>
   some_buffers (unat (0 :: u64)) \<noteq> some_buffers (unat (1 :: u64)) \<and>
   fst (Autotune quiet_driver 0 some_buffers (unaliased_call, empty_world)) =
     Inl (Undefined HostBufferOverrun)"
  by (simp add: model_defs object_defs unaliased_call_def run_simps driver_defs upt_rec)

end
